theory Spec2Isabelle
  imports Main
begin

unbundle bit_operations_syntax

section \<open>The MotioNet protocol engine of microkinetics-motionet\<close>

text \<open>
  A shallow embedding of \<^verbatim>\<open>core/frame.py\<close> (the frame codec),
  \<^verbatim>\<open>core/var_convert.py\<close> (the two stream helpers the codec calls),
  \<^verbatim>\<open>interface_wrapper/interface.py\<close> (the write and the accumulation loop over the
  serial port) and \<^verbatim>\<open>core/query_set.py\<close> (the transaction layer).

  Python integers are unbounded, so every integer of the source is an \<open>int\<close>. A
  \<^verbatim>\<open>bytes\<close> object is a list of integers, each in \<open>0..255\<close>; the theorems below
  about received streams hold for every integer list, hence for every \<^verbatim>\<open>bytes\<close>
  object. A Python \<^verbatim>\<open>str\<close> is the list of its code points.

  An exception is a value: every operation that can raise returns \<open>exn + 'a\<close>, with
  \<open>Inl\<close> the raised exception. An operation that also mutates an object returns the
  object's new state beside its result.
\<close>

subsection \<open>Exceptions\<close>

text \<open>
  \<open>frame_section\<close> tells which of the two checksum checks of the codec raised.
  \<open>message\<close> is the text of a \<^verbatim>\<open>GeneralException\<close>, one constructor per
  \<^verbatim>\<open>raise GeneralException(...)\<close> of \<^verbatim>\<open>query_set.py\<close>, with the values the
  f-string interpolates as arguments.
\<close>

datatype frame_section = Echo | Data

datatype exn =
    IndexError
      \<comment> \<open>an index read past the end of a sequence\<close>
  | ValueError int
      \<comment> \<open>\<^verbatim>\<open>ReturnCode(v)\<close> for a \<open>v\<close> that is no member; \<^verbatim>\<open>bytes(xs)\<close> for an element
          \<open>v\<close> outside \<open>range(256)\<close>\<close>
  | ChecksumException frame_section int int
      \<comment> \<open>the plain \<^verbatim>\<open>Exception\<close> of \<^verbatim>\<open>_decode_echo\<close> and \<^verbatim>\<open>_decode_data\<close>:
          calculated and actual checksum\<close>
  | AttributeError
      \<comment> \<open>an attribute read on \<^verbatim>\<open>None\<close>\<close>
  | ResponseTimeout
  | ResponseException
  | TypeError
      \<comment> \<open>a call that misses a required argument\<close>
  | SerialException
      \<comment> \<open>a failure of the serial port, raised by pyserial\<close>
  | SerialTimeoutException
      \<comment> \<open>pyserial's timeout exception, a subclass of \<^verbatim>\<open>SerialException\<close>\<close>
  | ServerException
  | GeneralException message
and message =
    QueryTimeout
      \<comment> \<open>\<^verbatim>\<open>"Query failed: Timeout!"\<close>\<close>
  | QueryFailed exn
      \<comment> \<open>\<^verbatim>\<open>f"Query failed : {e}"\<close>\<close>
  | QueryWrongAddress int int
      \<comment> \<open>\<^verbatim>\<open>"Query failed : Wrong Address received. ..."\<close>: received, expected\<close>
  | QueryUnknownError
      \<comment> \<open>\<^verbatim>\<open>"Query failed : Unknown error"\<close>\<close>
  | SetTimeout exn
      \<comment> \<open>\<^verbatim>\<open>f"Set failed: Timeout! : {e}"\<close>\<close>
  | SetFailed exn
      \<comment> \<open>\<^verbatim>\<open>f"Set failed : {e}"\<close>\<close>
  | SetWrongAddress int int
      \<comment> \<open>\<^verbatim>\<open>"Set failed: Wrong Address received. ..."\<close>: received, expected\<close>
  | SetUnknownError
      \<comment> \<open>\<^verbatim>\<open>"Set failed: Unknown error"\<close>\<close>

text \<open>
  \<^verbatim>\<open>except GeneralException\<close> matches the class and its subclasses;
  \<^verbatim>\<open>ServerException\<close> is one of them.
\<close>

fun is_GeneralException :: "exn \<Rightarrow> bool" where
  "is_GeneralException (GeneralException m) = True"
| "is_GeneralException ServerException = True"
| "is_GeneralException e = False"

subsection \<open>The data model of \<^verbatim>\<open>frame.py\<close>\<close>

datatype ReturnCode =
    START | MOVE_ABORTED | COMMAND_FINISHED | SLAVE_CHECKSUM_ERROR | SLAVE_ADDRESS_ERROR
  | INVALID_COMMAND | INVALID_PARAMETER | NO_COMMAND | NO_MOVE_PENDING
  | MOVE_ALREADY_PENDING | BUSY | PRESENT | NOT_AVAILABLE | MOVE_STOPPED

text \<open>
  \<open>ReturnCode_of v\<close> is the enum call \<^verbatim>\<open>ReturnCode(v)\<close>, which raises
  \<^verbatim>\<open>ValueError\<close> where it is \<open>None\<close> here.
\<close>

definition ReturnCode_of :: "int \<Rightarrow> ReturnCode option" where
  "ReturnCode_of v =
     (if v = 3 then Some START
      else if v = 4 then Some MOVE_ABORTED
      else if v = 5 then Some COMMAND_FINISHED
      else if v = 7 then Some SLAVE_CHECKSUM_ERROR
      else if v = 8 then Some SLAVE_ADDRESS_ERROR
      else if v = 12 then Some INVALID_COMMAND
      else if v = 14 then Some INVALID_PARAMETER
      else if v = 15 then Some NO_COMMAND
      else if v = 16 then Some NO_MOVE_PENDING
      else if v = 17 then Some MOVE_ALREADY_PENDING
      else if v = 20 then Some BUSY
      else if v = 22 then Some PRESENT
      else if v = 29 then Some NOT_AVAILABLE
      else if v = 32 then Some MOVE_STOPPED
      else None)"

record TxPacket =
  address :: int
  command :: int
  parameter :: int
  payload :: "nat list"

record EchoPacket =
  address :: int
  command :: int
  return_code :: ReturnCode

record DataPacket =
  address :: int
  command :: int
  parameter :: int
  payload :: "int list"

record RxPacket =
  echo_packet :: "EchoPacket option"
  data_packet :: "DataPacket option"

text \<open>The constructors \<^verbatim>\<open>TxPacket(address)\<close> and \<^verbatim>\<open>RxPacket()\<close>.\<close>

definition TxPacket_init :: "int \<Rightarrow> TxPacket" where
  "TxPacket_init a =
     \<lparr>TxPacket.address = a, TxPacket.command = 0, TxPacket.parameter = 0,
      TxPacket.payload = []\<rparr>"

definition RxPacket_init :: RxPacket where
  "RxPacket_init = \<lparr>echo_packet = None, data_packet = None\<rparr>"

subsection \<open>\<^verbatim>\<open>VarConvert.add_address\<close>, \<^verbatim>\<open>VarConvert.add_uint8\<close>\<close>

definition add_address :: "int list \<Rightarrow> int \<Rightarrow> int list" where
  "add_address stream v = stream @ [v OR 0x80]"

definition add_uint8 :: "int list \<Rightarrow> int \<Rightarrow> int list" where
  "add_uint8 stream v = stream @ [v]"

subsection \<open>\<^verbatim>\<open>Frame._calc_checksum\<close>\<close>

text \<open>
  The loop \<^verbatim>\<open>for byte in frame: checksum += byte\<close> from \<open>checksum = 0\<close>, then the
  mask.
\<close>

definition calc_checksum :: "int list \<Rightarrow> int" where
  "calc_checksum frame = fold (\<lambda>byte checksum. checksum + byte) frame 0 AND 0x7F"

subsection \<open>Decoding: \<^verbatim>\<open>_decode_echo\<close>, \<^verbatim>\<open>_decode_data\<close>, \<^verbatim>\<open>_decode_frame\<close>\<close>

text \<open>
  \<open>item rx i\<close> is the read \<^verbatim>\<open>rx_stream[i]\<close> for \<open>i \<ge> 0\<close>: Python raises
  \<^verbatim>\<open>IndexError\<close> at and past the end. The slice \<^verbatim>\<open>rx_stream[a:b]\<close> never raises; it
  is \<open>take (b - a) (drop a rx)\<close>.
\<close>

definition item :: "int list \<Rightarrow> nat \<Rightarrow> exn + int" where
  "item rx i = (if i < length rx then Inr (rx ! i) else Inl IndexError)"

definition slice :: "int list \<Rightarrow> nat \<Rightarrow> nat \<Rightarrow> int list" where
  "slice rx a b = take (b - a) (drop a rx)"

text \<open>
  \<^verbatim>\<open>_decode_echo\<close> in the source's order of evaluation: bytes 0, 1 and 2 are read,
  byte 2 is converted, the checksum of \<^verbatim>\<open>rx_stream[0:4]\<close> is computed, byte 4 is read
  and compared.
\<close>

definition decode_echo :: "int list \<Rightarrow> exn + EchoPacket" where
  "decode_echo rx_stream =
     (case item rx_stream 0 of Inl e \<Rightarrow> Inl e | Inr b0 \<Rightarrow>
     (case item rx_stream 1 of Inl e \<Rightarrow> Inl e | Inr b1 \<Rightarrow>
     (case item rx_stream 2 of Inl e \<Rightarrow> Inl e | Inr b2 \<Rightarrow>
     (case ReturnCode_of b2 of None \<Rightarrow> Inl (ValueError b2) | Some rc \<Rightarrow>
     (let echo_checksum = calc_checksum (slice rx_stream 0 4) in
     (case item rx_stream 4 of Inl e \<Rightarrow> Inl e | Inr b4 \<Rightarrow>
        if echo_checksum \<noteq> b4 then Inl (ChecksumException Echo echo_checksum b4)
        else Inr \<lparr>EchoPacket.address = b0, EchoPacket.command = b1,
                  return_code = rc\<rparr>))))))"

text \<open>
  The terminator scan \<^verbatim>\<open>while rx_stream[i] != data_frame.address: i += 1\<close>. It returns
  the index it stops at, or the \<^verbatim>\<open>IndexError\<close> of the read that leaves the buffer.
\<close>

function scan :: "int list \<Rightarrow> int \<Rightarrow> nat \<Rightarrow> exn + nat" where
  "scan rx_stream a i =
     (case item rx_stream i of
        Inl e \<Rightarrow> Inl e
      | Inr b \<Rightarrow> if b \<noteq> a then scan rx_stream a (i + 1) else Inr i)"
  by pat_completeness auto
termination
  by (relation "measure (\<lambda>(rx_stream, a, i). length rx_stream - i)")
     (auto simp: item_def split: if_splits)

text \<open>
  The indices at which the scan evaluates \<^verbatim>\<open>rx_stream[i]\<close>, in order: the same loop,
  recording each read, the failing one included.
\<close>

function scan_reads :: "int list \<Rightarrow> int \<Rightarrow> nat \<Rightarrow> nat list" where
  "scan_reads rx_stream a i =
     i # (case item rx_stream i of
            Inl e \<Rightarrow> []
          | Inr b \<Rightarrow> if b \<noteq> a then scan_reads rx_stream a (i + 1) else [])"
  by pat_completeness auto
termination
  by (relation "measure (\<lambda>(rx_stream, a, i). length rx_stream - i)")
     (auto simp: item_def split: if_splits)

definition decode_data :: "int list \<Rightarrow> exn + DataPacket" where
  "decode_data rx_stream =
     (case item rx_stream 5 of Inl e \<Rightarrow> Inl e | Inr b5 \<Rightarrow>
     (case item rx_stream 6 of Inl e \<Rightarrow> Inl e | Inr b6 \<Rightarrow>
     (case scan rx_stream b5 7 of Inl e \<Rightarrow> Inl e | Inr i \<Rightarrow>
     (let data_checksum = calc_checksum (slice rx_stream 5 (i + 1)) in
     (case item rx_stream (i + 1) of Inl e \<Rightarrow> Inl e | Inr t \<Rightarrow>
        if data_checksum \<noteq> t then Inl (ChecksumException Data data_checksum t)
        else Inr \<lparr>DataPacket.address = b5, DataPacket.command = b6,
                  DataPacket.parameter = 0,
                  DataPacket.payload = slice rx_stream 7 i\<rparr>)))))"

text \<open>
  \<^verbatim>\<open>_decode_frame\<close> decodes the echo section, then the data section, with no test
  of the length in between, and stores both in the packet it was given.
\<close>

definition decode_frame :: "RxPacket \<Rightarrow> int list \<Rightarrow> exn + RxPacket" where
  "decode_frame rx_frame rx_stream =
     (case decode_echo rx_stream of Inl e \<Rightarrow> Inl e | Inr echo_frame \<Rightarrow>
     (case decode_data rx_stream of Inl e \<Rightarrow> Inl e | Inr data_frame \<Rightarrow>
        Inr (rx_frame\<lparr>echo_packet := Some echo_frame,
                      data_packet := Some data_frame\<rparr>)))"

subsection \<open>The physical interface: \<^verbatim>\<open>Interface\<close>\<close>

text \<open>
  \<^verbatim>\<open>interface_wrapper/interface.py\<close> drives a pyserial port and reads the monotonic
  clock. Both are the environment of the program, and the model scripts them:
  \<^item> \<open>device k\<close> is the \<open>k\<close>-th exchange, counted from 0: \<open>on_send\<close> is the exception
    that the port raises under the \<open>k\<close>-th call of \<^verbatim>\<open>send_string\<close>, if any, and
    \<open>on_read j\<close> is what the \<open>j\<close>-th call of \<^verbatim>\<open>ser.read(size=1)\<close> after that write
    does, with the time it takes in milliseconds: it returns one byte, returns \<^verbatim>\<open>b''\<close>
    because the port's own read timeout ran out, or raises (this stands also for an
    exception of \<^verbatim>\<open>ser.in_waiting\<close>, read for the log line of the same pass);
  \<^item> \<open>written\<close> is the log of the streams handed to \<^verbatim>\<open>send_string\<close>, the latest last,
    so its length counts the send attempts;
  \<^item> \<open>line\<close> is the input line as it stands, that of the latest write, and \<open>reads\<close>
    counts the reads made on it.
  The clock is counted in whole milliseconds from \<^verbatim>\<open>start_time_seconds\<close>: a read
  advances it by its duration and \<^verbatim>\<open>sleep(0.01)\<close> by 10.
\<close>

datatype read_result = Byte int | NoByte | Raises exn

datatype exchange =
  Exchange (on_send: "exn option") (on_read: "nat \<Rightarrow> read_result \<times> nat")

record Interface =
  device :: "nat \<Rightarrow> exchange"
  written :: "int list list"
  line :: "nat \<Rightarrow> read_result \<times> nat"
  reads :: nat

text \<open>
  \<^verbatim>\<open>send_string\<close>: the buffers are reset, so the reads that follow are those of this
  exchange; then the stream is written and flushed.
\<close>

definition send_string :: "Interface \<Rightarrow> int list \<Rightarrow> (exn + unit) \<times> Interface" where
  "send_string phy stream =
     (let k = length (written phy);
          phy' = phy\<lparr>written := written phy @ [stream],
                     line := on_read (device phy k), reads := 0\<rparr>
      in case on_send (device phy k) of
           Some e \<Rightarrow> (Inl e, phy')
         | None \<Rightarrow> (Inr (), phy'))"

text \<open>
  \<^verbatim>\<open>_read(size=1)\<close>: fewer bytes than asked raise \<^verbatim>\<open>ResponseTimeout\<close>. The result comes
  with the duration of the read.
\<close>

definition read_one :: "Interface \<Rightarrow> (exn + int) \<times> nat \<times> Interface" where
  "read_one phy =
     (let phy' = phy\<lparr>reads := reads phy + 1\<rparr>
      in case line phy (reads phy) of
           (Byte b, d) \<Rightarrow> (Inr b, d, phy')
         | (NoByte, d) \<Rightarrow> (Inl ResponseTimeout, d, phy')
         | (Raises e, d) \<Rightarrow> (Inl e, d, phy'))"

text \<open>
  The loop \<^verbatim>\<open>while runtime_milliseconds < timeout\<close> of \<^verbatim>\<open>get_data_or_timeout\<close>.
  \<open>clock\<close> is the time since \<^verbatim>\<open>start_time_seconds\<close> at the head of the pass. A read
  that raises \<^verbatim>\<open>ResponseTimeout\<close> is caught inside the loop: the pass measures the
  runtime, sleeps and continues, and nothing is raised. A read byte is appended, then
  the pass measures the runtime and sleeps. Any other exception leaves the loop. The
  loop ends only when the measured runtime has reached \<open>timeout\<close>, and then the bytes
  gathered so far are returned, none included.
\<close>

function accumulate ::
  "Interface \<Rightarrow> int \<Rightarrow> nat \<Rightarrow> nat \<Rightarrow> int list \<Rightarrow> (exn + int list) \<times> Interface" where
  "accumulate phy timeout clock runtime_milliseconds response_frame =
     (if int runtime_milliseconds < timeout then
        (case read_one phy of
           (Inl e, d, phy') \<Rightarrow>
             if e = ResponseTimeout then
               (if int runtime_milliseconds \<ge> timeout then (Inr response_frame, phy')
                else accumulate phy' timeout (clock + d + 10) (clock + d) response_frame)
             else (Inl e, phy')
         | (Inr response_byte, d, phy') \<Rightarrow>
             accumulate phy' timeout (clock + d + 10) (clock + d)
               (response_frame @ [response_byte]))
      else (Inr response_frame, phy))"
  by pat_completeness auto
termination
  by (relation "measure (\<lambda>(phy, timeout, clock, runtime_milliseconds, response_frame).
        2 * nat (timeout + 10 - int clock)
        + (if runtime_milliseconds + 10 = clock then 0 else 1))")
     (auto split: if_splits)

text \<open>
  \<^verbatim>\<open>get_data_or_timeout\<close>: the loop starts with an empty frame and a runtime of 0 (the
  \<^verbatim>\<open>sleep(0.1)\<close> before it ends before the clock is started). The outer handlers turn
  \<^verbatim>\<open>SerialTimeoutException\<close> into \<^verbatim>\<open>ResponseTimeout\<close> and every other exception into
  \<^verbatim>\<open>ResponseException\<close>.
\<close>

definition get_data_or_timeout :: "Interface \<Rightarrow> int \<Rightarrow> (exn + int list) \<times> Interface" where
  "get_data_or_timeout phy timeout =
     (case accumulate phy timeout 0 0 [] of
        (Inr response_frame, phy') \<Rightarrow> (Inr response_frame, phy')
      | (Inl e, phy') \<Rightarrow>
          if e = SerialTimeoutException then (Inl ResponseTimeout, phy')
          else (Inl ResponseException, phy'))"

subsection \<open>\<^verbatim>\<open>Frame.send_frame\<close>, \<^verbatim>\<open>Frame.receive_frame_or_timeout\<close>\<close>

record Frame =
  phy_com :: Interface
  tx_checksum :: int

definition Frame_init :: "Interface \<Rightarrow> Frame" where
  "Frame_init interface = \<lparr>phy_com = interface, tx_checksum = 0\<rparr>"

text \<open>
  \<open>bytes_of xs\<close> is \<^verbatim>\<open>bytes(xs)\<close> on a list of integers: it raises \<^verbatim>\<open>ValueError\<close> at
  the first element outside \<open>range(256)\<close>.
\<close>

definition bytes_of :: "int list \<Rightarrow> exn + int list" where
  "bytes_of xs =
     (case filter (\<lambda>v. \<not> (0 \<le> v \<and> v < 256)) xs of
        [] \<Rightarrow> Inr xs
      | v # vs \<Rightarrow> Inl (ValueError v))"

text \<open>
  \<^verbatim>\<open>send_frame\<close>, statement by statement; \<open>int ascii_char\<close> is
  \<^verbatim>\<open>ord(ascii_char)\<close>. The checksum is stored in the frame object before
  \<^verbatim>\<open>bytes(tx_stream)\<close> can raise.
\<close>

definition send_frame :: "Frame \<Rightarrow> TxPacket \<Rightarrow> (exn + unit) \<times> Frame" where
  "send_frame self tx_frame =
     (let tx_stream = add_address [] (TxPacket.address tx_frame);
          tx_stream = fold (\<lambda>ascii_char stream. stream @ [int ascii_char])
                        (TxPacket.payload tx_frame) tx_stream;
          tx_stream = add_address tx_stream (TxPacket.address tx_frame);
          self = self\<lparr>tx_checksum := calc_checksum tx_stream\<rparr>;
          tx_stream = add_uint8 tx_stream (tx_checksum self)
      in (case bytes_of tx_stream of
            Inl e \<Rightarrow> (Inl e, self)
          | Inr tx_stream_bytes \<Rightarrow>
              (case send_string (phy_com self) tx_stream_bytes of
                 (r, phy) \<Rightarrow> (r, self\<lparr>phy_com := phy\<rparr>))))"

definition receive_frame_or_timeout :: "Frame \<Rightarrow> int \<Rightarrow> (exn + RxPacket) \<times> Frame" where
  "receive_frame_or_timeout self timeout =
     (case get_data_or_timeout (phy_com self) timeout of
        (Inl e, phy) \<Rightarrow> (Inl e, self\<lparr>phy_com := phy\<rparr>)
      | (Inr rx_stream, phy) \<Rightarrow>
          (decode_frame RxPacket_init rx_stream, self\<lparr>phy_com := phy\<rparr>))"

subsection \<open>The transaction layer: \<^verbatim>\<open>QuerySet\<close>\<close>

text \<open>
  \<^verbatim>\<open>QuerySet.phy_com\<close> and \<^verbatim>\<open>Frame.phy_com\<close> are the same object and only the frame
  uses it, so the state holds it once, inside \<open>me_frame\<close>.
\<close>

record QuerySet =
  me_frame :: Frame
  is_ready :: bool

definition QuerySet_init :: "Interface \<Rightarrow> QuerySet" where
  "QuerySet_init interface = \<lparr>me_frame = Frame_init interface, is_ready = False\<rparr>"

definition check_if_connected :: "QuerySet \<Rightarrow> bool" where
  "check_if_connected self = True"

text \<open>
  The body of the \<^verbatim>\<open>try\<close> that \<^verbatim>\<open>local_query\<close> and \<^verbatim>\<open>local_set\<close> share:
  \<^verbatim>\<open>send_frame\<close>, then \<^verbatim>\<open>receive_frame_or_timeout\<close>, then \<^verbatim>\<open>return rx_frame\<close>.
\<close>

definition send_and_receive ::
  "QuerySet \<Rightarrow> TxPacket \<Rightarrow> int \<Rightarrow> (exn + RxPacket) \<times> QuerySet" where
  "send_and_receive self tx_frame timeout =
     (case send_frame (me_frame self) tx_frame of
        (Inl e, fr) \<Rightarrow> (Inl e, self\<lparr>me_frame := fr\<rparr>)
      | (Inr u, fr) \<Rightarrow>
          (case receive_frame_or_timeout fr timeout of
             (r, fr') \<Rightarrow> (r, self\<lparr>me_frame := fr'\<rparr>)))"

text \<open>
  The \<^verbatim>\<open>while trials_left > 0\<close> loop of \<^verbatim>\<open>local_query\<close>, by recursion on
  \<open>trials_left\<close>; the first equation is the code after the loop, where \<open>rx_frame\<close> is
  still the packet the function started with. The handlers are tried in the source's
  order: \<^verbatim>\<open>ResponseTimeout\<close>, \<^verbatim>\<open>ServerException\<close>, \<^verbatim>\<open>Exception\<close>.
\<close>

fun local_query_loop ::
  "nat \<Rightarrow> RxPacket \<Rightarrow> QuerySet \<Rightarrow> TxPacket \<Rightarrow> int \<Rightarrow> (exn + RxPacket) \<times> QuerySet" where
  "local_query_loop 0 rx_frame self tx_frame timeout =
     (case echo_packet rx_frame of
        None \<Rightarrow> (Inl AttributeError, self)
      | Some echo \<Rightarrow>
          if EchoPacket.address echo \<noteq> TxPacket.address tx_frame
          then (Inl (GeneralException
                  (QueryWrongAddress (EchoPacket.address echo) (TxPacket.address tx_frame))),
                self)
          else (Inl (GeneralException QueryUnknownError), self))"
| "local_query_loop (Suc trials_left) rx_frame self tx_frame timeout =
     (case send_and_receive self tx_frame timeout of
        (Inr rx, self') \<Rightarrow> (Inr rx, self')
      | (Inl e, self') \<Rightarrow>
          if e = ResponseTimeout then
            (if trials_left = 0 then (Inl (GeneralException QueryTimeout), self')
             else local_query_loop trials_left rx_frame self' tx_frame timeout)
          else if e = ServerException then (Inl e, self')
          else (Inl (GeneralException (QueryFailed e)), self'))"

definition local_query ::
  "QuerySet \<Rightarrow> TxPacket \<Rightarrow> int \<Rightarrow> (exn + RxPacket) \<times> QuerySet" where
  "local_query self tx_frame timeout = local_query_loop 3 RxPacket_init self tx_frame timeout"

text \<open>
  \<^verbatim>\<open>local_set\<close> starts from \<^verbatim>\<open>rx_frame = TxPacket()\<close>, whose address is the default 1,
  and compares that address after the loop. Its handler for \<^verbatim>\<open>ServerException\<close> is
  \<^verbatim>\<open>raise ServerException\<close>: it raises the class, which Python instantiates with no
  argument, and the constructor inherited from \<^verbatim>\<open>GeneralException\<close> requires
  \<open>message\<close>, so what is raised is a \<^verbatim>\<open>TypeError\<close>.
\<close>

fun local_set_loop ::
  "nat \<Rightarrow> TxPacket \<Rightarrow> QuerySet \<Rightarrow> TxPacket \<Rightarrow> int \<Rightarrow> (exn + RxPacket) \<times> QuerySet" where
  "local_set_loop 0 rx_frame self tx_frame timeout =
     (if TxPacket.address rx_frame \<noteq> TxPacket.address tx_frame
      then (Inl (GeneralException
              (SetWrongAddress (TxPacket.address rx_frame) (TxPacket.address tx_frame))),
            self)
      else (Inl (GeneralException SetUnknownError), self))"
| "local_set_loop (Suc trials_left) rx_frame self tx_frame timeout =
     (case send_and_receive self tx_frame timeout of
        (Inr rx, self') \<Rightarrow> (Inr rx, self')
      | (Inl e, self') \<Rightarrow>
          if e = ResponseTimeout then
            (if trials_left = 0 then (Inl (GeneralException (SetTimeout e)), self')
             else local_set_loop trials_left rx_frame self' tx_frame timeout)
          else if e = ServerException then (Inl TypeError, self')
          else (Inl (GeneralException (SetFailed e)), self'))"

definition local_set ::
  "QuerySet \<Rightarrow> TxPacket \<Rightarrow> int \<Rightarrow> (exn + RxPacket) \<times> QuerySet" where
  "local_set self tx_frame timeout = local_set_loop 3 (TxPacket_init 1) self tx_frame timeout"

text \<open>
  \<^verbatim>\<open>query\<close> and \<^verbatim>\<open>set\<close> (\<open>set_op\<close> here, \<open>set\<close> being taken). \<^verbatim>\<open>check_if_connected\<close>
  returns \<open>True\<close> and raises nothing, so the outer handler for
  \<^verbatim>\<open>NotConnectedException\<close>, which re-raises, never runs. The inner handlers:
  \<^verbatim>\<open>ServerException\<close> is re-raised, any other \<^verbatim>\<open>GeneralException\<close> clears
  \<open>is_ready\<close> and is re-raised, anything else (the \<^verbatim>\<open>TypeError\<close> of \<^verbatim>\<open>local_set\<close>,
  the \<^verbatim>\<open>AttributeError\<close> of the code after the loop of \<^verbatim>\<open>local_query\<close>) propagates
  with the flag untouched.
\<close>

definition query :: "QuerySet \<Rightarrow> TxPacket \<Rightarrow> int \<Rightarrow> (exn + RxPacket) \<times> QuerySet" where
  "query self tx_frame timeout =
     (case local_query self tx_frame timeout of
        (Inr rx_frame, self') \<Rightarrow> (Inr rx_frame, self')
      | (Inl e, self') \<Rightarrow>
          if e = ServerException then (Inl e, self')
          else if is_GeneralException e then (Inl e, self'\<lparr>is_ready := False\<rparr>)
          else (Inl e, self'))"

definition set_op :: "QuerySet \<Rightarrow> TxPacket \<Rightarrow> int \<Rightarrow> (exn + RxPacket) \<times> QuerySet" where
  "set_op self tx_frame timeout =
     (case local_set self tx_frame timeout of
        (Inr rx_frame, self') \<Rightarrow> (Inr rx_frame, self')
      | (Inl e, self') \<Rightarrow>
          if e = ServerException then (Inl e, self')
          else if is_GeneralException e then (Inl e, self'\<lparr>is_ready := False\<rparr>)
          else (Inl e, self'))"

text \<open>
  The states of a transaction layer that its own operations can reach: the constructor
  gives one, and each call of \<^verbatim>\<open>query\<close> or \<^verbatim>\<open>set\<close>, failed or not, gives the next.
\<close>

inductive reachable :: "QuerySet \<Rightarrow> bool" where
  init: "reachable (QuerySet_init interface)"
| query: "reachable self \<Longrightarrow> reachable (snd (query self tx_frame timeout))"
| set_op: "reachable self \<Longrightarrow> reachable (snd (set_op self tx_frame timeout))"

text \<open>
  Two observations of a transaction layer, for the statements below: the number of
  send attempts made so far on its channel, and the behaviour of the device behind it.
\<close>

definition send_attempts :: "QuerySet \<Rightarrow> nat" where
  "send_attempts self = length (written (phy_com (me_frame self)))"

definition chan :: "QuerySet \<Rightarrow> nat \<Rightarrow> exchange" where
  "chan self = device (phy_com (me_frame self))"

text \<open>
  \<open>feed bs\<close> is an input line that holds the bytes \<open>bs\<close>, each read at once, and is
  silent after them: every further read returns \<^verbatim>\<open>b''\<close> after the port's read
  timeout, the one second that \<^verbatim>\<open>Interface.connect\<close> sets. \<open>feed []\<close> is the silent
  line.
\<close>

definition feed :: "int list \<Rightarrow> nat \<Rightarrow> read_result \<times> nat" where
  "feed bs j = (if j < length bs then (Byte (bs ! j), 0) else (NoByte, 1000))"

text \<open>
  \<open>wire tx_frame\<close> is the byte sequence the spec gives for a request: the address with
  its high bit set, the payload's code points, the address again, and the checksum of
  these. \<open>encodable\<close> holds of a request whose address is one byte and whose payload is
  ASCII; the spec's addresses, \<open>0..127\<close>, are among them.
\<close>

definition wire :: "TxPacket \<Rightarrow> int list" where
  "wire tx_frame =
     (let a = TxPacket.address tx_frame OR 0x80;
          body = [a] @ map int (TxPacket.payload tx_frame) @ [a]
      in body @ [calc_checksum body])"

definition encodable :: "TxPacket \<Rightarrow> bool" where
  "encodable tx_frame \<longleftrightarrow>
     0 \<le> TxPacket.address tx_frame \<and> TxPacket.address tx_frame < 256
     \<and> list_all (\<lambda>c. c < 128) (TxPacket.payload tx_frame)"

section \<open>Theorems\<close>

subsection \<open>The checksum\<close>

lemma fold_add_sum_list: "fold (\<lambda>byte checksum. checksum + byte) frame s = s + sum_list frame"
  for s :: int
  by (induction frame arbitrary: s) simp_all

text \<open>
  C7. For every finite byte sequence the checksum is the unbounded sum of the bytes
  masked with \<open>0x7F\<close>; so it lies in \<open>0..127\<close> and its high bit (bit 7, the \<open>0x80\<close> bit
  that marks an address byte) is clear.
\<close>

theorem calc_checksum_is_masked_sum:
  "calc_checksum frame = sum_list frame AND 0x7F
   \<and> 0 \<le> calc_checksum frame \<and> calc_checksum frame \<le> 127
   \<and> calc_checksum frame AND 0x80 = 0
   \<and> \<not> bit (calc_checksum frame) 7"
proof -
  have eq: "calc_checksum frame = sum_list frame AND 0x7F"
    by (simp add: calc_checksum_def fold_add_sum_list)
  have lo: "0 \<le> sum_list frame AND (0x7F::int)"
    by (simp add: and_nonnegative_int_iff)
  have hi: "sum_list frame AND (0x7F::int) \<le> 127"
    by (rule AND_upper2') simp_all
  have "(sum_list frame AND (0x7F::int)) AND 0x80 = sum_list frame AND (0x7F AND 0x80)"
    by (simp only: and.assoc)
  also have "(0x7F::int) AND 0x80 = 0"
    by simp
  finally have mask: "(sum_list frame AND (0x7F::int)) AND 0x80 = 0"
    by simp
  have "\<not> bit (sum_list frame AND (0x7F::int)) 7"
    by (simp add: bit_and_iff)
  with eq lo hi mask show ?thesis
    by simp
qed

subsection \<open>The terminator scan and the data section\<close>

declare scan.simps [simp del] scan_reads.simps [simp del]

lemma item_in: "i < length rx \<Longrightarrow> item rx i = Inr (rx ! i)"
  by (simp add: item_def)



lemma scan_finds:
  "i \<le> k \<Longrightarrow> k < length rx \<Longrightarrow> rx ! k = a \<Longrightarrow>
   (\<forall>j. i \<le> j \<and> j < k \<longrightarrow> rx ! j \<noteq> a) \<Longrightarrow> scan rx a i = Inr k"
proof (induction rx a i rule: scan.induct)
  case (1 rx a i)
  from "1.prems" have inb: "i < length rx" by simp
  show ?case
  proof (cases "i = k")
    case True
    with "1.prems" show ?thesis
      by (subst scan.simps) (simp add: item_in)
  next
    case False
    with "1.prems" have lt: "i < k" by simp
    with "1.prems" have ne: "rx ! i \<noteq> a" by simp
    from lt have le: "i + 1 \<le> k" by simp
    from "1.prems" have rest: "\<forall>j. i + 1 \<le> j \<and> j < k \<longrightarrow> rx ! j \<noteq> a" by simp
    have "scan rx a (i + 1) = Inr k"
      using "1.IH" [OF item_in [OF inb] ne le "1.prems"(2) "1.prems"(3) rest] .
    with inb ne show ?thesis
      by (subst scan.simps) (simp add: item_in)
  qed
qed

lemma decode_data_at:
  assumes "7 \<le> i" and "i < length rx" and "rx ! i = rx ! 5"
    and "\<forall>j. 7 \<le> j \<and> j < i \<longrightarrow> rx ! j \<noteq> rx ! 5"
  shows "decode_data rx =
     (case item rx (i + 1) of Inl e \<Rightarrow> Inl e | Inr t \<Rightarrow>
        if calc_checksum (slice rx 5 (i + 1)) \<noteq> t
        then Inl (ChecksumException Data (calc_checksum (slice rx 5 (i + 1))) t)
        else Inr \<lparr>DataPacket.address = rx ! 5, DataPacket.command = rx ! 6,
                  DataPacket.parameter = 0, DataPacket.payload = slice rx 7 i\<rparr>)"
proof -
  from assms have l5: "5 < length rx" and l6: "6 < length rx" by simp_all
  have sc: "scan rx (rx ! 5) 7 = Inr i"
    using assms by (intro scan_finds) simp_all
  show ?thesis
    by (simp add: decode_data_def item_in [OF l5] item_in [OF l6] sc Let_def split: sum.split)
qed



lemma notin_slice_nth:
  "a \<notin> set (slice rx n i) \<Longrightarrow> i \<le> length rx \<Longrightarrow> n \<le> j \<Longrightarrow> j < i \<Longrightarrow> rx ! j \<noteq> a"
proof
  assume a: "a \<notin> set (slice rx n i)" and il: "i \<le> length rx" and nj: "n \<le> j"
    and ji: "j < i" and eq: "rx ! j = a"
  from nj ji il have "slice rx n i ! (j - n) = rx ! j" by (simp add: slice_def)
  moreover from nj ji il have "j - n < length (slice rx n i)" by (simp add: slice_def)
  ultimately have "rx ! j \<in> set (slice rx n i)" by (metis nth_mem)
  with a eq show False by simp
qed



text \<open>Concrete streams, for the evaluations below.\<close>

lemma calc_checksum_Cons: "calc_checksum (b # bs) = (b + sum_list bs) AND 0x7F"
  by (simp add: calc_checksum_def fold_add_sum_list)




text \<open>
  C9. In a received stream let \<open>i \<ge> 7\<close> be an index that holds the data section's
  address byte (byte 5), with a byte after it, such that the payload \<^verbatim>\<open>bytes[7:i]\<close>
  holds no byte equal to the address: \<open>i\<close> is the first occurrence of the address at
  or after offset 7. Then the checksum trailer is read at \<open>i + 1\<close>; when it equals the
  checksum of \<^verbatim>\<open>bytes[5:i+1]\<close> the data section decodes to address byte 5, command
  byte 6 and exactly the payload \<^verbatim>\<open>bytes[7:i]\<close>, and otherwise decoding raises the
  checksum exception with the calculated value and \<^verbatim>\<open>bytes[i+1]\<close>. The whole frame
  decodes to the echo section and that data section when the echo section is good.
\<close>

theorem decode_recovers_payload:
  assumes "7 \<le> i" and "i + 1 < length rx_stream"
    and "rx_stream ! i = rx_stream ! 5"
    and "rx_stream ! 5 \<notin> set (slice rx_stream 7 i)"
  shows "decode_data rx_stream =
      (if calc_checksum (slice rx_stream 5 (i + 1)) = rx_stream ! (i + 1)
       then Inr \<lparr>DataPacket.address = rx_stream ! 5, DataPacket.command = rx_stream ! 6,
                 DataPacket.parameter = 0,
                 DataPacket.payload = take (i - 7) (drop 7 rx_stream)\<rparr>
       else Inl (ChecksumException Data (calc_checksum (slice rx_stream 5 (i + 1)))
                   (rx_stream ! (i + 1))))
    \<and> decode_frame rx_frame rx_stream =
      (case decode_echo rx_stream of
         Inl e \<Rightarrow> Inl e
       | Inr echo_frame \<Rightarrow>
           if calc_checksum (slice rx_stream 5 (i + 1)) = rx_stream ! (i + 1)
           then Inr (rx_frame\<lparr>echo_packet := Some echo_frame,
                  data_packet := Some \<lparr>DataPacket.address = rx_stream ! 5,
                    DataPacket.command = rx_stream ! 6, DataPacket.parameter = 0,
                    DataPacket.payload = take (i - 7) (drop 7 rx_stream)\<rparr>\<rparr>)
           else Inl (ChecksumException Data (calc_checksum (slice rx_stream 5 (i + 1)))
                       (rx_stream ! (i + 1))))"
proof -
  from assms(2) have il: "i < length rx_stream" and il': "i \<le> length rx_stream" by simp_all
  have "\<forall>j. 7 \<le> j \<and> j < i \<longrightarrow> rx_stream ! j \<noteq> rx_stream ! 5"
    using notin_slice_nth [OF assms(4) il'] by simp
  note at = decode_data_at [OF assms(1) il assms(3) this]
  have d: "decode_data rx_stream =
      (if calc_checksum (slice rx_stream 5 (i + 1)) = rx_stream ! (i + 1)
       then Inr \<lparr>DataPacket.address = rx_stream ! 5, DataPacket.command = rx_stream ! 6,
                 DataPacket.parameter = 0,
                 DataPacket.payload = take (i - 7) (drop 7 rx_stream)\<rparr>
       else Inl (ChecksumException Data (calc_checksum (slice rx_stream 5 (i + 1)))
                   (rx_stream ! (i + 1))))"
    unfolding at using assms(2) by (simp add: item_def slice_def)
  show ?thesis
    unfolding decode_frame_def d by (simp split: sum.split)
qed

lemma echo_of_terminated_stream: "decode_echo [129, 69, 5, 0, 75, 129, 69, 49, 48, 48, 129, 88] =
   Inr \<lparr>EchoPacket.address = 129, EchoPacket.command = 69, return_code = COMMAND_FINISHED\<rparr>"
  by (simp add: decode_echo_def item_def slice_def ReturnCode_of_def calc_checksum_Cons)

theorem decode_recovers_payload_witness:
  "(7::nat) \<le> 10 \<and> 10 + 1 < length [129, 69, 5, 0, 75, 129, 69, 49, 48, 48, 129, 88 :: int]
   \<and> [129, 69, 5, 0, 75, 129, 69, 49, 48, 48, 129, 88 :: int] ! 10
       = [129, 69, 5, 0, 75, 129, 69, 49, 48, 48, 129, 88] ! 5
   \<and> [129, 69, 5, 0, 75, 129, 69, 49, 48, 48, 129, 88 :: int] ! 5
       \<notin> set (slice [129, 69, 5, 0, 75, 129, 69, 49, 48, 48, 129, 88] 7 10)
   \<and> decode_frame RxPacket_init [129, 69, 5, 0, 75, 129, 69, 49, 48, 48, 129, 88] =
       Inr \<lparr>echo_packet = Some \<lparr>EchoPacket.address = 129, EchoPacket.command = 69,
                                 return_code = COMMAND_FINISHED\<rparr>,
            data_packet = Some \<lparr>DataPacket.address = 129, DataPacket.command = 69,
                                 DataPacket.parameter = 0,
                                 DataPacket.payload = [49, 48, 48]\<rparr>\<rparr>"
  using decode_recovers_payload
    [of 10 "[129, 69, 5, 0, 75, 129, 69, 49, 48, 48, 129, 88]" RxPacket_init]
  by (simp add: echo_of_terminated_stream slice_def calc_checksum_Cons RxPacket_init_def)


lemma decode_frame_short_raises:
  "length rx_stream \<le> 5 \<Longrightarrow> \<exists>e. decode_frame rx_frame rx_stream = Inl e"
  by (simp add: decode_frame_def decode_data_def item_def split: sum.split)

subsection \<open>Encoding\<close>

lemma fold_append_ord:
  "fold (\<lambda>ascii_char stream. stream @ [int ascii_char]) p stream = stream @ map int p"
  by (induction p arbitrary: stream) simp_all

lemma bytes_of_in_range:
  assumes "\<forall>v \<in> set xs. 0 \<le> v \<and> v < 256"
  shows "bytes_of xs = Inr xs"
proof -
  from assms have "filter (\<lambda>v. \<not> (0 \<le> v \<and> v < 256)) xs = []"
    by (simp add: filter_empty_conv)
  then show ?thesis
    by (simp add: bytes_of_def)
qed

lemma address_byte_range:
  assumes "0 \<le> a" and "a < 256"
  shows "0 \<le> a OR (0x80::int) \<and> a OR 0x80 < 256"
proof -
  have "a OR (0x80::int) < 2 ^ 8"
    using assms by (intro OR_upper) simp_all
  moreover have "0 \<le> a OR (0x80::int)"
    using assms by simp
  ultimately show ?thesis by simp
qed

lemma calc_checksum_range: "0 \<le> calc_checksum frame \<and> calc_checksum frame < 256"
proof -
  have "0 \<le> fold (\<lambda>byte checksum. checksum + byte) frame 0 AND (0x7F::int)"
    by simp
  moreover have "fold (\<lambda>byte checksum. checksum + byte) frame 0 AND (0x7F::int) \<le> 127"
    by (rule AND_upper2') simp_all
  ultimately show ?thesis
    by (simp add: calc_checksum_def)
qed

lemma bytes_of_wire:
  assumes "encodable tx_frame"
  shows "bytes_of (wire tx_frame) = Inr (wire tx_frame)"
proof -
  define a where "a = TxPacket.address tx_frame OR 0x80"
  define body where "body = [a] @ map int (TxPacket.payload tx_frame) @ [a]"
  have a: "0 \<le> a \<and> a < 256"
    unfolding a_def using assms by (intro address_byte_range) (simp_all add: encodable_def)
  have p: "\<forall>v \<in> set (map int (TxPacket.payload tx_frame)). 0 \<le> v \<and> v < 256"
    using assms by (fastforce simp: encodable_def list_all_iff)
  have "\<forall>v \<in> set (body @ [calc_checksum body]). 0 \<le> v \<and> v < 256"
    unfolding body_def using a p
      calc_checksum_range [of "[a] @ map int (TxPacket.payload tx_frame) @ [a]"]
    by auto
  then have "bytes_of (body @ [calc_checksum body]) = Inr (body @ [calc_checksum body])"
    by (rule bytes_of_in_range)
  then show ?thesis
    by (simp add: wire_def Let_def body_def a_def)
qed

lemma send_frame_encodable:
  assumes "encodable tx_frame"
  shows "send_frame self tx_frame =
      (case send_string (phy_com self) (wire tx_frame) of
         (r, phy) \<Rightarrow>
           (r, self\<lparr>tx_checksum := last (wire tx_frame), phy_com := phy\<rparr>))"
  using bytes_of_wire [OF assms]
  by (simp add: send_frame_def Let_def add_address_def add_uint8_def fold_append_ord wire_def)

text \<open>
  C8. For every request whose address \<open>a\<close> is one byte (the spec's \<open>0..127\<close> included)
  and whose payload \<open>p\<close> is ASCII, \<^verbatim>\<open>send_frame\<close> hands to the channel exactly the
  bytes \<open>a OR 0x80\<close>, the code points of \<open>p\<close>, \<open>a OR 0x80\<close> again, and the checksum of
  all the bytes before it; the conversion to \<^verbatim>\<open>bytes\<close> does not raise, so the call
  fails only if the channel's write does.
\<close>

theorem send_frame_wire_bytes:
  assumes "0 \<le> TxPacket.address tx_frame" and "TxPacket.address tx_frame < 256"
    and "\<forall>c \<in> set (TxPacket.payload tx_frame). c < 128"
  shows "(let a = TxPacket.address tx_frame OR 0x80;
              body = [a] @ map int (TxPacket.payload tx_frame) @ [a];
              stream = body @ [calc_checksum body]
          in bytes_of stream = Inr stream
           \<and> written (phy_com (snd (send_frame self tx_frame)))
               = written (phy_com self) @ [stream]
           \<and> fst (send_frame self tx_frame)
               = (case on_send (device (phy_com self) (length (written (phy_com self)))) of
                    Some e \<Rightarrow> Inl e | None \<Rightarrow> Inr ()))"
proof -
  have enc: "encodable tx_frame"
    using assms by (simp add: encodable_def list_all_iff)
  have w: "written (phy_com (snd (send_frame self tx_frame)))
      = written (phy_com self) @ [wire tx_frame]"
    unfolding send_frame_encodable [OF enc]
    by (simp add: send_string_def Let_def split: option.split)
  have f: "fst (send_frame self tx_frame)
       = (case on_send (device (phy_com self) (length (written (phy_com self)))) of
            Some e \<Rightarrow> Inl e | None \<Rightarrow> Inr ())"
    unfolding send_frame_encodable [OF enc]
    by (simp add: send_string_def Let_def split: option.split)
  from bytes_of_wire [OF enc] w f show ?thesis
    by (simp add: wire_def Let_def)
qed

theorem send_frame_wire_bytes_witness:
  "0 \<le> TxPacket.address ((TxPacket_init 1)\<lparr>TxPacket.payload := [69]\<rparr>)
   \<and> TxPacket.address ((TxPacket_init 1)\<lparr>TxPacket.payload := [69]\<rparr>) < 256
   \<and> list_all (\<lambda>c. c < 128) (TxPacket.payload ((TxPacket_init 1)\<lparr>TxPacket.payload := [69]\<rparr>))
   \<and> written (phy_com (snd (send_frame
       (Frame_init \<lparr>device = (\<lambda>k. Exchange None (feed [])), written = [], line = feed [], reads = 0\<rparr>)
       ((TxPacket_init 1)\<lparr>TxPacket.payload := [69]\<rparr>))))
     = [[129, 69, 129, 71]]
   \<and> fst (send_frame
       (Frame_init \<lparr>device = (\<lambda>k. Exchange None (feed [])), written = [], line = feed [], reads = 0\<rparr>)
       ((TxPacket_init 1)\<lparr>TxPacket.payload := [69]\<rparr>)) = Inr ()"
  using send_frame_wire_bytes
    [of "(TxPacket_init 1)\<lparr>TxPacket.payload := [69]\<rparr>"
        "Frame_init \<lparr>device = (\<lambda>k. Exchange None (feed [])), written = [], line = feed [], reads = 0\<rparr>"]
  by (simp add: TxPacket_init_def Frame_init_def calc_checksum_def Let_def)

subsection \<open>The accumulation loop\<close>

declare accumulate.simps [simp del]

lemma accumulate_unfold:
  "accumulate phy timeout clock runtime response_frame =
     (if int runtime < timeout then
        (case line phy (reads phy) of
           (Byte b, d) \<Rightarrow>
             accumulate (phy\<lparr>reads := reads phy + 1\<rparr>) timeout (clock + d + 10) (clock + d)
               (response_frame @ [b])
         | (NoByte, d) \<Rightarrow>
             accumulate (phy\<lparr>reads := reads phy + 1\<rparr>) timeout (clock + d + 10) (clock + d)
               response_frame
         | (Raises e, d) \<Rightarrow>
             if e = ResponseTimeout
             then accumulate (phy\<lparr>reads := reads phy + 1\<rparr>) timeout (clock + d + 10)
                    (clock + d) response_frame
             else (Inl e, phy\<lparr>reads := reads phy + 1\<rparr>))
      else (Inr response_frame, phy))"
  by (subst accumulate.simps)
     (simp add: read_one_def Let_def split: prod.split read_result.split)

lemma pass_decreases:
  "int runtime < timeout \<Longrightarrow>
   2 * nat (timeout + 10 - int (clock + d + 10)) + (if clock + d + 10 = clock + d + 10 then 0 else 1)
     < 2 * nat (timeout + 10 - int clock) + (if runtime + 10 = clock then 0 else (1::nat))"
  by (auto split: if_splits)

lemma accumulate_keeps:
  "device (snd (accumulate phy timeout clock runtime response_frame)) = device phy
   \<and> written (snd (accumulate phy timeout clock runtime response_frame)) = written phy
   \<and> line (snd (accumulate phy timeout clock runtime response_frame)) = line phy"
proof (induction "2 * nat (timeout + 10 - int clock) + (if runtime + 10 = clock then 0 else (1::nat))"
    arbitrary: phy clock runtime response_frame rule: less_induct)
  case less
  show ?case
  proof (cases "int runtime < timeout")
    case False
    then show ?thesis
      by (subst (1 2 3) accumulate_unfold) simp
  next
    case True
    obtain r d where l: "line phy (reads phy) = (r, d)"
      by (cases "line phy (reads phy)")
    have step: "\<And>frame. device (snd (accumulate (phy\<lparr>reads := reads phy + 1\<rparr>) timeout
          (clock + d + 10) (clock + d) frame)) = device phy
        \<and> written (snd (accumulate (phy\<lparr>reads := reads phy + 1\<rparr>) timeout
          (clock + d + 10) (clock + d) frame)) = written phy
        \<and> line (snd (accumulate (phy\<lparr>reads := reads phy + 1\<rparr>) timeout
          (clock + d + 10) (clock + d) frame)) = line phy"
      using less.hyps [OF pass_decreases [OF True, of clock d],
          of "phy\<lparr>reads := reads phy + 1\<rparr>"] by simp
    show ?thesis
      using True l step
      by (subst (1 2 3) accumulate_unfold) (simp split: read_result.split)
  qed
qed

lemma accumulate_silent:
  "(\<forall>j. reads phy \<le> j \<longrightarrow> fst (line phy j) = NoByte)
     \<Longrightarrow> fst (accumulate phy timeout clock runtime response_frame) = Inr response_frame"
proof (induction "2 * nat (timeout + 10 - int clock) + (if runtime + 10 = clock then 0 else (1::nat))"
    arbitrary: phy clock runtime rule: less_induct)
  case less
  show ?case
  proof (cases "int runtime < timeout")
    case False
    then show ?thesis
      by (subst accumulate_unfold) simp
  next
    case True
    obtain d where l: "line phy (reads phy) = (NoByte, d)"
      using less.prems by (cases "line phy (reads phy)") (metis fst_conv order_refl)
    have "fst (accumulate (phy\<lparr>reads := reads phy + 1\<rparr>) timeout (clock + d + 10) (clock + d)
        response_frame) = Inr response_frame"
      using less.prems
      by (intro less.hyps [OF pass_decreases [OF True, of clock d]]) simp
    then show ?thesis
      using True l by (subst accumulate_unfold) simp
  qed
qed

lemma accumulate_feed:
  assumes "line phy = feed bs" and "10 * int (length bs) \<le> timeout"
    and "reads phy \<le> length bs" and "clock = 10 * reads phy"
    and "runtime + 10 = clock \<or> (reads phy = 0 \<and> runtime = 0)"
  shows "fst (accumulate phy timeout clock runtime response_frame)
      = Inr (response_frame @ drop (reads phy) bs)"
  using assms
proof (induction "length bs - reads phy" arbitrary: phy clock runtime response_frame)
  case 0
  then have "\<forall>j. reads phy \<le> j \<longrightarrow> fst (line phy j) = NoByte"
    by (simp add: feed_def)
  then have "fst (accumulate phy timeout clock runtime response_frame) = Inr response_frame"
    by (rule accumulate_silent)
  with 0 show ?case by simp
next
  case (Suc n)
  from Suc.hyps(2) have lt: "reads phy < length bs" by simp
  have run: "int runtime < timeout"
  proof -
    from lt have "int (reads phy) < int (length bs)" by simp
    then have "10 * int (reads phy) < 10 * int (length bs)" by simp
    moreover have "int runtime \<le> 10 * int (reads phy)"
      using Suc.prems(4,5) by auto
    ultimately show ?thesis
      using Suc.prems(2) by linarith
  qed
  have l: "line phy (reads phy) = (Byte (bs ! reads phy), 0)"
    using Suc.prems(1) lt by (simp add: feed_def)
  have "fst (accumulate (phy\<lparr>reads := reads phy + 1\<rparr>) timeout (clock + 0 + 10) (clock + 0)
        (response_frame @ [bs ! reads phy]))
      = Inr ((response_frame @ [bs ! reads phy]) @ drop (reads (phy\<lparr>reads := reads phy + 1\<rparr>)) bs)"
    using Suc.hyps(2) Suc.prems lt
    by (intro Suc.hyps(1)) simp_all
  then show ?case
    using run l lt by (subst accumulate_unfold) (simp add: Cons_nth_drop_Suc)
qed

lemma get_data_or_timeout_keeps:
  "device (snd (get_data_or_timeout phy timeout)) = device phy"
  "written (snd (get_data_or_timeout phy timeout)) = written phy"
  using accumulate_keeps [of phy timeout 0 0 "[]"]
  by (cases "accumulate phy timeout 0 0 []"; simp add: get_data_or_timeout_def split: sum.split)+

lemma get_data_or_timeout_feed:
  assumes "line phy = feed bs" and "reads phy = 0" and "10 * int (length bs) \<le> timeout"
  shows "fst (get_data_or_timeout phy timeout) = Inr bs"
proof -
  have "fst (accumulate phy timeout 0 0 []) = Inr ([] @ drop (reads phy) bs)"
    using assms by (intro accumulate_feed) simp_all
  then show ?thesis
    using assms(2)
    by (cases "accumulate phy timeout 0 0 []") (simp add: get_data_or_timeout_def)
qed

subsection \<open>The transaction layer\<close>

paragraph \<open>One attempt\<close>

lemma send_string_effects:
  "device (snd (send_string phy stream)) = device phy"
  "written (snd (send_string phy stream)) = written phy @ [stream]"
  "line (snd (send_string phy stream)) = on_read (device phy (length (written phy)))"
  "reads (snd (send_string phy stream)) = 0"
  "fst (send_string phy stream) =
     (case on_send (device phy (length (written phy))) of Some e \<Rightarrow> Inl e | None \<Rightarrow> Inr ())"
  by (simp_all add: send_string_def Let_def split: option.split)

lemma send_frame_device:
  "device (phy_com (snd (send_frame fr tx_frame))) = device (phy_com fr)"
  by (simp add: send_frame_def Let_def send_string_def split: sum.split prod.split option.split)

lemma send_frame_written_le:
  "length (written (phy_com (snd (send_frame fr tx_frame)))) \<le> length (written (phy_com fr)) + 1"
  by (simp add: send_frame_def Let_def send_string_def split: sum.split prod.split option.split)

lemma receive_frame_or_timeout_keeps:
  "device (phy_com (snd (receive_frame_or_timeout fr timeout))) = device (phy_com fr)"
  "written (phy_com (snd (receive_frame_or_timeout fr timeout))) = written (phy_com fr)"
  using get_data_or_timeout_keeps [of "phy_com fr" timeout]
  by (cases "get_data_or_timeout (phy_com fr) timeout";
      simp add: receive_frame_or_timeout_def split: sum.split)+

lemma receive_frame_or_timeout_fst:
  "fst (receive_frame_or_timeout fr timeout) =
     (case fst (get_data_or_timeout (phy_com fr) timeout) of
        Inl e \<Rightarrow> Inl e
      | Inr rx_stream \<Rightarrow> decode_frame RxPacket_init rx_stream)"
  by (cases "get_data_or_timeout (phy_com fr) timeout")
     (simp add: receive_frame_or_timeout_def split: sum.split)

lemma send_and_receive_alt:
  "send_and_receive self tx_frame timeout =
     (case fst (send_frame (me_frame self) tx_frame) of
        Inl e \<Rightarrow> (Inl e, self\<lparr>me_frame := snd (send_frame (me_frame self) tx_frame)\<rparr>)
      | Inr u \<Rightarrow>
          (fst (receive_frame_or_timeout (snd (send_frame (me_frame self) tx_frame)) timeout),
           self\<lparr>me_frame :=
             snd (receive_frame_or_timeout (snd (send_frame (me_frame self) tx_frame))
               timeout)\<rparr>))"
  by (cases "send_frame (me_frame self) tx_frame")
     (simp add: send_and_receive_def split: sum.split prod.split)

lemma send_and_receive_chan: "chan (snd (send_and_receive self tx_frame timeout)) = chan self"
  by (simp add: send_and_receive_alt chan_def send_frame_device
      receive_frame_or_timeout_keeps(1) split: sum.split)

lemma send_and_receive_is_ready:
  "is_ready (snd (send_and_receive self tx_frame timeout)) = is_ready self"
  by (simp add: send_and_receive_alt split: sum.split)

lemma send_and_receive_attempts_le:
  "send_attempts (snd (send_and_receive self tx_frame timeout)) \<le> send_attempts self + 1"
  using send_frame_written_le [of "me_frame self" tx_frame]
  by (simp add: send_and_receive_alt send_attempts_def receive_frame_or_timeout_keeps(2)
      split: sum.split)

lemma send_frame_encodable_effects:
  assumes "encodable tx_frame"
  shows "written (phy_com (snd (send_frame fr tx_frame))) = written (phy_com fr) @ [wire tx_frame]"
    and "line (phy_com (snd (send_frame fr tx_frame)))
      = on_read (device (phy_com fr) (length (written (phy_com fr))))"
    and "reads (phy_com (snd (send_frame fr tx_frame))) = 0"
    and "fst (send_frame fr tx_frame)
      = (case on_send (device (phy_com fr) (length (written (phy_com fr)))) of
           Some e \<Rightarrow> Inl e | None \<Rightarrow> Inr ())"
  unfolding send_frame_encodable [OF assms]
  by (simp_all add: send_string_def Let_def split: option.split)

lemma send_and_receive_attempts:
  assumes "encodable tx_frame"
  shows "send_attempts (snd (send_and_receive self tx_frame timeout)) = send_attempts self + 1"
  by (simp add: send_and_receive_alt send_attempts_def receive_frame_or_timeout_keeps(2)
      send_frame_encodable_effects(1) [OF assms] split: sum.split)

lemma attempt_feed:
  assumes "encodable tx_frame"
    and "chan self (send_attempts self) = Exchange None (feed bs)"
    and "10 * int (length bs) \<le> timeout"
  shows "fst (send_and_receive self tx_frame timeout) = decode_frame RxPacket_init bs"
proof -
  note fx = send_frame_encodable_effects [OF assms(1), of "me_frame self"]
  have sent: "fst (send_frame (me_frame self) tx_frame) = Inr ()"
    using assms(2) by (simp add: fx(4) chan_def send_attempts_def)
  have "line (phy_com (snd (send_frame (me_frame self) tx_frame))) = feed bs"
    using assms(2) by (simp add: fx(2) chan_def send_attempts_def)
  then have "fst (get_data_or_timeout (phy_com (snd (send_frame (me_frame self) tx_frame)))
      timeout) = Inr bs"
    using fx(3) assms(3) by (rule get_data_or_timeout_feed)
  then show ?thesis
    by (simp add: send_and_receive_alt sent receive_frame_or_timeout_fst)
qed

paragraph \<open>The retry loops\<close>

lemma local_query_loop_Suc:
  "local_query_loop (Suc n) rx_frame self tx_frame timeout =
     (case fst (send_and_receive self tx_frame timeout) of
        Inr rx \<Rightarrow> (Inr rx, snd (send_and_receive self tx_frame timeout))
      | Inl e \<Rightarrow>
          if e = ResponseTimeout then
            (if n = 0
             then (Inl (GeneralException QueryTimeout),
                   snd (send_and_receive self tx_frame timeout))
             else local_query_loop n rx_frame (snd (send_and_receive self tx_frame timeout))
                    tx_frame timeout)
          else if e = ServerException
          then (Inl e, snd (send_and_receive self tx_frame timeout))
          else (Inl (GeneralException (QueryFailed e)),
                snd (send_and_receive self tx_frame timeout)))"
  by (cases "send_and_receive self tx_frame timeout") (simp split: sum.split)

lemma local_set_loop_Suc:
  "local_set_loop (Suc n) rx_frame self tx_frame timeout =
     (case fst (send_and_receive self tx_frame timeout) of
        Inr rx \<Rightarrow> (Inr rx, snd (send_and_receive self tx_frame timeout))
      | Inl e \<Rightarrow>
          if e = ResponseTimeout then
            (if n = 0
             then (Inl (GeneralException (SetTimeout e)),
                   snd (send_and_receive self tx_frame timeout))
             else local_set_loop n rx_frame (snd (send_and_receive self tx_frame timeout))
                    tx_frame timeout)
          else if e = ServerException
          then (Inl TypeError, snd (send_and_receive self tx_frame timeout))
          else (Inl (GeneralException (SetFailed e)),
                snd (send_and_receive self tx_frame timeout)))"
  by (cases "send_and_receive self tx_frame timeout") (simp split: sum.split)

declare local_query_loop.simps(2) [simp del] local_set_loop.simps(2) [simp del]

lemma local_query_loop_is_ready:
  "is_ready (snd (local_query_loop n rx_frame self tx_frame timeout)) = is_ready self"
proof (induction n arbitrary: self)
  case 0
  show ?case by (simp split: option.split)
next
  case (Suc n)
  show ?case
    unfolding local_query_loop_Suc
    by (simp add: Suc.IH send_and_receive_is_ready split: sum.split)
qed

lemma local_set_loop_is_ready:
  "is_ready (snd (local_set_loop n rx_frame self tx_frame timeout)) = is_ready self"
proof (induction n arbitrary: self)
  case 0
  show ?case by simp
next
  case (Suc n)
  show ?case
    unfolding local_set_loop_Suc
    by (simp add: Suc.IH send_and_receive_is_ready split: sum.split)
qed

lemma local_query_loop_attempts_le:
  "send_attempts (snd (local_query_loop n rx_frame self tx_frame timeout))
     \<le> send_attempts self + n"
proof (induction n arbitrary: self)
  case 0
  show ?case by (simp split: option.split)
next
  case (Suc n)
  have one: "send_attempts (snd (send_and_receive self tx_frame timeout))
      \<le> send_attempts self + 1"
    by (rule send_and_receive_attempts_le)
  have rest: "send_attempts (snd (local_query_loop n rx_frame
        (snd (send_and_receive self tx_frame timeout)) tx_frame timeout))
      \<le> send_attempts (snd (send_and_receive self tx_frame timeout)) + n"
    by (rule Suc.IH)
  show ?case
    unfolding local_query_loop_Suc using one rest
    by (simp split: sum.split)
qed

lemma local_query_loop_raises_general:
  "0 < n \<Longrightarrow> fst (local_query_loop n rx_frame self tx_frame timeout) = Inl e
     \<Longrightarrow> is_GeneralException e"
proof (induction n arbitrary: self)
  case 0
  then show ?case by simp
next
  case (Suc n)
  show ?case
  proof (cases "fst (send_and_receive self tx_frame timeout)")
    case (Inr rx)
    with Suc.prems(2) show ?thesis
      by (simp add: local_query_loop_Suc)
  next
    case (Inl e')
    show ?thesis
    proof (cases "e' = ResponseTimeout \<and> n \<noteq> 0")
      case True
      with Inl Suc.prems(2) have "fst (local_query_loop n rx_frame
          (snd (send_and_receive self tx_frame timeout)) tx_frame timeout) = Inl e"
        by (simp add: local_query_loop_Suc)
      with True show ?thesis
        by (intro Suc.IH) simp_all
    next
      case False
      with Inl Suc.prems(2) show ?thesis
        by (auto simp: local_query_loop_Suc split: if_splits)
    qed
  qed
qed

lemma local_set_loop_raises:
  "0 < n \<Longrightarrow> fst (local_set_loop n rx_frame self tx_frame timeout) = Inl e
     \<Longrightarrow> e = TypeError \<or> (\<exists>m. e = GeneralException m)"
proof (induction n arbitrary: self)
  case 0
  then show ?case by simp
next
  case (Suc n)
  show ?case
  proof (cases "fst (send_and_receive self tx_frame timeout)")
    case (Inr rx)
    with Suc.prems(2) show ?thesis
      by (simp add: local_set_loop_Suc)
  next
    case (Inl e')
    show ?thesis
    proof (cases "e' = ResponseTimeout \<and> n \<noteq> 0")
      case True
      with Inl Suc.prems(2) have "fst (local_set_loop n rx_frame
          (snd (send_and_receive self tx_frame timeout)) tx_frame timeout) = Inl e"
        by (simp add: local_set_loop_Suc)
      with True show ?thesis
        by (intro Suc.IH) simp_all
    next
      case False
      with Inl Suc.prems(2) show ?thesis
        by (auto simp: local_set_loop_Suc split: if_splits)
    qed
  qed
qed

paragraph \<open>\<^verbatim>\<open>query\<close> and \<^verbatim>\<open>set\<close>\<close>

lemma query_alt:
  "query self tx_frame timeout =
     (case fst (local_query self tx_frame timeout) of
        Inr rx_frame \<Rightarrow> (Inr rx_frame, snd (local_query self tx_frame timeout))
      | Inl e \<Rightarrow>
          if e = ServerException then (Inl e, snd (local_query self tx_frame timeout))
          else if is_GeneralException e
          then (Inl e, (snd (local_query self tx_frame timeout))\<lparr>is_ready := False\<rparr>)
          else (Inl e, snd (local_query self tx_frame timeout)))"
  by (cases "local_query self tx_frame timeout") (simp add: query_def split: sum.split)

lemma set_op_alt:
  "set_op self tx_frame timeout =
     (case fst (local_set self tx_frame timeout) of
        Inr rx_frame \<Rightarrow> (Inr rx_frame, snd (local_set self tx_frame timeout))
      | Inl e \<Rightarrow>
          if e = ServerException then (Inl e, snd (local_set self tx_frame timeout))
          else if is_GeneralException e
          then (Inl e, (snd (local_set self tx_frame timeout))\<lparr>is_ready := False\<rparr>)
          else (Inl e, snd (local_set self tx_frame timeout)))"
  by (cases "local_set self tx_frame timeout") (simp add: set_op_def split: sum.split)

lemma send_attempts_is_ready_update [simp]:
  "send_attempts (self\<lparr>is_ready := b\<rparr>) = send_attempts self"
  by (simp add: send_attempts_def)

lemma query_is_ready:
  "is_ready (snd (query self tx_frame timeout)) =
     (case fst (query self tx_frame timeout) of
        Inr rx_frame \<Rightarrow> is_ready self
      | Inl e \<Rightarrow> e = ServerException \<and> is_ready self)"
proof (cases "fst (local_query self tx_frame timeout)")
  case (Inr rx)
  then show ?thesis
    by (simp add: query_alt local_query_def local_query_loop_is_ready)
next
  case (Inl e)
  then have "is_GeneralException e"
    unfolding local_query_def by (intro local_query_loop_raises_general) simp_all
  with Inl show ?thesis
    by (simp add: query_alt) (simp add: local_query_def local_query_loop_is_ready)
qed

lemma set_op_is_ready:
  "is_ready (snd (set_op self tx_frame timeout)) =
     (case fst (set_op self tx_frame timeout) of
        Inr rx_frame \<Rightarrow> is_ready self
      | Inl e \<Rightarrow> e = TypeError \<and> is_ready self)"
proof (cases "fst (local_set self tx_frame timeout)")
  case (Inr rx)
  then show ?thesis
    by (simp add: set_op_alt local_set_def local_set_loop_is_ready)
next
  case (Inl e)
  then have "e = TypeError \<or> (\<exists>m. e = GeneralException m)"
    unfolding local_set_def by (intro local_set_loop_raises) simp_all
  with Inl show ?thesis
    by (auto simp: set_op_alt) (simp_all add: local_set_def local_set_loop_is_ready)
qed

lemma is_ready_preserved_False:
  "\<not> is_ready self \<Longrightarrow> \<not> is_ready (snd (query self tx_frame timeout))"
  "\<not> is_ready self \<Longrightarrow> \<not> is_ready (snd (set_op self tx_frame timeout))"
  by (simp_all add: query_is_ready set_op_is_ready split: sum.split)

lemma reachable_not_ready: "reachable self \<Longrightarrow> \<not> is_ready self"
proof (induction rule: reachable.induct)
  case (init interface)
  show ?case by (simp add: QuerySet_init_def)
next
  case (query self tx_frame timeout)
  then show ?case by (intro is_ready_preserved_False(1))
next
  case (set_op self tx_frame timeout)
  then show ?case by (intro is_ready_preserved_False(2))
qed

text \<open>
  C10. The constructor sets \<open>is_ready\<close> to \<open>False\<close>. A call of \<^verbatim>\<open>query\<close> leaves the
  flag as it was when it returns a response or raises \<^verbatim>\<open>ServerException\<close>, and
  leaves it \<open>False\<close> after any other failure. A call of \<^verbatim>\<open>set\<close> leaves the flag as it
  was when it returns a response or when the server-error handler of \<^verbatim>\<open>local_set\<close>
  fires (what it raises, a \<^verbatim>\<open>TypeError\<close>, passes \<^verbatim>\<open>set\<close> untouched), and leaves it
  \<open>False\<close> after any other failure. No call sets the flag to \<open>True\<close>, so it is
  \<open>False\<close> in every state the layer reaches through its own operations.
\<close>

theorem is_ready_never_set:
  "\<not> is_ready (QuerySet_init interface)
   \<and> is_ready (snd (query self tx_frame timeout)) =
       (case fst (query self tx_frame timeout) of
          Inr rx_frame \<Rightarrow> is_ready self
        | Inl e \<Rightarrow> e = ServerException \<and> is_ready self)
   \<and> is_ready (snd (set_op self tx_frame timeout)) =
       (case fst (set_op self tx_frame timeout) of
          Inr rx_frame \<Rightarrow> is_ready self
        | Inl e \<Rightarrow> e = TypeError \<and> is_ready self)
   \<and> (reachable s \<longrightarrow> \<not> is_ready s)"
  using query_is_ready [of self tx_frame timeout] set_op_is_ready [of self tx_frame timeout]
    reachable_not_ready [of s]
  by (simp add: QuerySet_init_def)

theorem is_ready_never_set_witness:
  "reachable (snd (set_op (snd (query
       (QuerySet_init \<lparr>device = (\<lambda>k. Exchange None (feed [])), written = [],
          line = feed [], reads = 0\<rparr>)
       (TxPacket_init 1) 500)) (TxPacket_init 1) 500))
   \<and> \<not> is_ready (snd (set_op (snd (query
       (QuerySet_init \<lparr>device = (\<lambda>k. Exchange None (feed [])), written = [],
          line = feed [], reads = 0\<rparr>)
       (TxPacket_init 1) 500)) (TxPacket_init 1) 500))"
proof -
  define s where "s = snd (set_op (snd (query
       (QuerySet_init \<lparr>device = (\<lambda>k. Exchange None (feed [])), written = [],
          line = feed [], reads = 0\<rparr>)
       (TxPacket_init 1) 500)) (TxPacket_init 1) 500)"
  have r: "reachable s"
    unfolding s_def by (intro reachable.set_op reachable.query reachable.init)
  have "reachable s \<longrightarrow> \<not> is_ready s"
    using is_ready_never_set
      [of "\<lparr>device = (\<lambda>k. Exchange None (feed [])), written = [], line = feed [], reads = 0\<rparr>"
          "QuerySet_init \<lparr>device = (\<lambda>k. Exchange None (feed [])), written = [],
             line = feed [], reads = 0\<rparr>"
          "TxPacket_init 1" 500 s]
    by blast
  with r show ?thesis
    unfolding s_def by simp
qed

paragraph \<open>Concrete frames\<close>

lemma frame_other_address:
  "decode_frame RxPacket_init [130, 69, 5, 0, 76, 130, 69, 49, 48, 48, 130, 90] =
     Inr \<lparr>echo_packet = Some \<lparr>EchoPacket.address = 130, EchoPacket.command = 69,
                               return_code = COMMAND_FINISHED\<rparr>,
          data_packet = Some \<lparr>DataPacket.address = 130, DataPacket.command = 69,
                               DataPacket.parameter = 0,
                               DataPacket.payload = [49, 48, 48]\<rparr>\<rparr>"
  by (simp add: decode_frame_def decode_echo_def decode_data_def item_def slice_def
      ReturnCode_of_def calc_checksum_Cons scan.simps RxPacket_init_def)

lemma frame_invalid_command:
  "decode_frame RxPacket_init [129, 88, 12, 0, 101, 129, 88, 129, 90] =
     Inr \<lparr>echo_packet = Some \<lparr>EchoPacket.address = 129, EchoPacket.command = 88,
                               return_code = INVALID_COMMAND\<rparr>,
          data_packet = Some \<lparr>DataPacket.address = 129, DataPacket.command = 88,
                               DataPacket.parameter = 0, DataPacket.payload = []\<rparr>\<rparr>"
  by (simp add: decode_frame_def decode_echo_def decode_data_def item_def slice_def
      ReturnCode_of_def calc_checksum_Cons scan.simps RxPacket_init_def)

lemma frame_bad_checksum:
  "decode_frame RxPacket_init [129, 69, 5, 0, 0, 129, 69, 49, 48, 48, 129, 88] =
     Inl (ChecksumException Echo 75 0)"
  by (simp add: decode_frame_def decode_echo_def item_def slice_def
      ReturnCode_of_def calc_checksum_Cons)

lemma frame_good:
  "decode_frame RxPacket_init [129, 69, 5, 0, 75, 129, 69, 49, 48, 48, 129, 88] =
     Inr \<lparr>echo_packet = Some \<lparr>EchoPacket.address = 129, EchoPacket.command = 69,
                               return_code = COMMAND_FINISHED\<rparr>,
          data_packet = Some \<lparr>DataPacket.address = 129, DataPacket.command = 69,
                               DataPacket.parameter = 0,
                               DataPacket.payload = [49, 48, 48]\<rparr>\<rparr>"
  by (simp add: decode_frame_def decode_echo_def decode_data_def item_def slice_def
      ReturnCode_of_def calc_checksum_Cons scan.simps RxPacket_init_def)

lemma request_E_encodable: "encodable ((TxPacket_init 1)\<lparr>TxPacket.payload := [69]\<rparr>)"
  by (simp add: encodable_def TxPacket_init_def)


lemma frame_unknown_status:
  "decode_frame RxPacket_init [129, 69, 99, 0, 41] = Inl (ValueError 99)"
  by (simp add: decode_frame_def decode_echo_def item_def ReturnCode_of_def)

lemma frame_truncated:
  "decode_frame RxPacket_init [129, 69, 5] = Inl IndexError"
  by (simp add: decode_frame_def decode_echo_def item_def ReturnCode_of_def)

lemma frame_empty: "decode_frame RxPacket_init [] = Inl IndexError"
  by (simp add: decode_frame_def decode_echo_def item_def)

lemma request_X_encodable: "encodable ((TxPacket_init 1)\<lparr>TxPacket.payload := [88]\<rparr>)"
  by (simp add: encodable_def TxPacket_init_def)

lemma fresh_layer [simp]:
  "send_attempts (QuerySet_init \<lparr>device = d, written = [], line = l, reads = n\<rparr>) = 0"
  "chan (QuerySet_init \<lparr>device = d, written = [], line = l, reads = n\<rparr>) = d"
  by (simp_all add: send_attempts_def chan_def QuerySet_init_def Frame_init_def)

paragraph \<open>What the first attempt decides\<close>

lemma first_frame_returned:
  assumes "encodable tx_frame"
    and "chan self (send_attempts self) = Exchange None (feed rx_stream)"
    and "10 * int (length rx_stream) \<le> timeout"
    and "decode_frame RxPacket_init rx_stream = Inr rx_frame"
  shows "fst (query self tx_frame timeout) = Inr rx_frame"
    and "send_attempts (snd (query self tx_frame timeout)) = send_attempts self + 1"
    and "fst (set_op self tx_frame timeout) = Inr rx_frame"
    and "send_attempts (snd (set_op self tx_frame timeout)) = send_attempts self + 1"
proof -
  have a: "fst (send_and_receive self tx_frame timeout) = Inr rx_frame"
    using attempt_feed [OF assms(1,2,3)] assms(4) by simp
  have q: "local_query self tx_frame timeout =
      (Inr rx_frame, snd (send_and_receive self tx_frame timeout))"
    by (simp add: local_query_def numeral_3_eq_3 local_query_loop_Suc a)
  have s: "local_set self tx_frame timeout =
      (Inr rx_frame, snd (send_and_receive self tx_frame timeout))"
    by (simp add: local_set_def numeral_3_eq_3 local_set_loop_Suc a)
  show "fst (query self tx_frame timeout) = Inr rx_frame"
    by (simp add: query_alt q)
  show "send_attempts (snd (query self tx_frame timeout)) = send_attempts self + 1"
    by (simp add: query_alt q send_and_receive_attempts [OF assms(1)])
  show "fst (set_op self tx_frame timeout) = Inr rx_frame"
    by (simp add: set_op_alt s)
  show "send_attempts (snd (set_op self tx_frame timeout)) = send_attempts self + 1"
    by (simp add: set_op_alt s send_and_receive_attempts [OF assms(1)])
qed

lemma first_decode_failure_raised:
  assumes "encodable tx_frame"
    and "chan self (send_attempts self) = Exchange None (feed rx_stream)"
    and "10 * int (length rx_stream) \<le> timeout"
    and "decode_frame RxPacket_init rx_stream = Inl e"
    and "e \<noteq> ResponseTimeout" and "e \<noteq> ServerException"
  shows "fst (query self tx_frame timeout) = Inl (GeneralException (QueryFailed e))"
    and "send_attempts (snd (query self tx_frame timeout)) = send_attempts self + 1"
    and "fst (set_op self tx_frame timeout) = Inl (GeneralException (SetFailed e))"
    and "send_attempts (snd (set_op self tx_frame timeout)) = send_attempts self + 1"
proof -
  have a: "fst (send_and_receive self tx_frame timeout) = Inl e"
    using attempt_feed [OF assms(1,2,3)] assms(4) by simp
  have q: "local_query self tx_frame timeout =
      (Inl (GeneralException (QueryFailed e)), snd (send_and_receive self tx_frame timeout))"
    using assms(5,6) by (simp add: local_query_def numeral_3_eq_3 local_query_loop_Suc a)
  have s: "local_set self tx_frame timeout =
      (Inl (GeneralException (SetFailed e)), snd (send_and_receive self tx_frame timeout))"
    using assms(5,6) by (simp add: local_set_def numeral_3_eq_3 local_set_loop_Suc a)
  show "fst (query self tx_frame timeout) = Inl (GeneralException (QueryFailed e))"
    by (simp add: query_alt q)
  show "send_attempts (snd (query self tx_frame timeout)) = send_attempts self + 1"
    by (simp add: query_alt q send_and_receive_attempts [OF assms(1)])
  show "fst (set_op self tx_frame timeout) = Inl (GeneralException (SetFailed e))"
    by (simp add: set_op_alt s)
  show "send_attempts (snd (set_op self tx_frame timeout)) = send_attempts self + 1"
    by (simp add: set_op_alt s send_and_receive_attempts [OF assms(1)])
qed

lemma query_attempts_le:
  "send_attempts (snd (query self tx_frame timeout)) \<le> send_attempts self + 3"
proof -
  have "send_attempts (snd (local_query self tx_frame timeout)) \<le> send_attempts self + 3"
    unfolding local_query_def by (rule local_query_loop_attempts_le)
  then show ?thesis
    by (simp add: query_alt split: sum.split)
qed

lemma silent_line_returns_no_bytes:
  "(\<forall>j. fst (line phy j) = NoByte) \<Longrightarrow> fst (get_data_or_timeout phy timeout) = Inr []"
proof -
  assume "\<forall>j. fst (line phy j) = NoByte"
  then have "fst (accumulate phy timeout 0 0 []) = Inr []"
    by (intro accumulate_silent) simp
  then show ?thesis
    by (cases "accumulate phy timeout 0 0 []") (simp add: get_data_or_timeout_def)
qed

text \<open>
  C4. The claim: \<^verbatim>\<open>query\<close> retries a timeout, so two timeouts and then a valid frame
  give a success after 3 send attempts, and a channel that always times out gives a
  timeout error after 3 send attempts. The code: \<^verbatim>\<open>local_query\<close> retries only when
  \<^verbatim>\<open>ResponseTimeout\<close> reaches it, and on a silent line none does.
  \<^verbatim>\<open>get_data_or_timeout\<close> catches the \<^verbatim>\<open>ResponseTimeout\<close> of every empty read inside
  its loop and, when the time is up, returns the empty byte string; \<^verbatim>\<open>_decode_echo\<close>
  then raises \<^verbatim>\<open>IndexError\<close> at \<^verbatim>\<open>rx_stream[0]\<close>, which is no \<^verbatim>\<open>ResponseTimeout\<close>. So
  on a line that stays silent, and on one that is silent for two exchanges and
  answers the third with a valid frame, \<^verbatim>\<open>query\<close> raises
  \<^verbatim>\<open>GeneralException("Query failed : index out of range")\<close> after one send attempt.
\<close>

theorem query_fails_at_once_on_silent_line:
  "fst (get_data_or_timeout
       \<lparr>device = (\<lambda>k. Exchange None (feed [])), written = [[129, 69, 129, 71]],
          line = feed [], reads = 0\<rparr> 500) = Inr []
   \<and> fst (query
       (QuerySet_init
         \<lparr>device = (\<lambda>k. Exchange None (feed [])), written = [],
          line = feed [], reads = 0\<rparr>)
       ((TxPacket_init 1)\<lparr>TxPacket.payload := [69]\<rparr>) 500)
     = Inl (GeneralException (QueryFailed IndexError))
   \<and> send_attempts (snd (query
       (QuerySet_init
         \<lparr>device = (\<lambda>k. Exchange None (feed [])), written = [],
          line = feed [], reads = 0\<rparr>)
       ((TxPacket_init 1)\<lparr>TxPacket.payload := [69]\<rparr>) 500)) = 1
   \<and> fst (query
       (QuerySet_init
         \<lparr>device = (\<lambda>k. if k < 2 then Exchange None (feed [])
             else Exchange None (feed [129, 69, 5, 0, 75, 129, 69, 49, 48, 48, 129, 88])), written = [],
          line = feed [], reads = 0\<rparr>)
       ((TxPacket_init 1)\<lparr>TxPacket.payload := [69]\<rparr>) 500)
     = Inl (GeneralException (QueryFailed IndexError))
   \<and> send_attempts (snd (query
       (QuerySet_init
         \<lparr>device = (\<lambda>k. if k < 2 then Exchange None (feed [])
             else Exchange None (feed [129, 69, 5, 0, 75, 129, 69, 49, 48, 48, 129, 88])), written = [],
          line = feed [], reads = 0\<rparr>)
       ((TxPacket_init 1)\<lparr>TxPacket.payload := [69]\<rparr>) 500)) = 1"
  using first_decode_failure_raised(1,2) [OF request_E_encodable _ _ frame_empty,
      of "QuerySet_init
         \<lparr>device = (\<lambda>k. Exchange None (feed [])), written = [],
          line = feed [], reads = 0\<rparr>" 500]
    first_decode_failure_raised(1,2) [OF request_E_encodable _ _ frame_empty,
      of "QuerySet_init
         \<lparr>device = (\<lambda>k. if k < 2 then Exchange None (feed [])
             else Exchange None (feed [129, 69, 5, 0, 75, 129, 69, 49, 48, 48, 129, 88])), written = [],
          line = feed [], reads = 0\<rparr>" 500]
    silent_line_returns_no_bytes
      [of "\<lparr>device = (\<lambda>k. Exchange None (feed [])), written = [[129, 69, 129, 71]],
          line = feed [], reads = 0\<rparr>" 500]
  by (simp add: feed_def)

text \<open>
  C1. The claim: a decoded, checksum-valid response whose echoed address differs from
  the request's makes \<^verbatim>\<open>query\<close> fail at once with an address-mismatch error. The
  code: the request goes to address 1 (wire byte \<open>0x81\<close>) and the first attempt
  receives a valid frame from address 2 (wire byte \<open>0x82 = 130\<close>); \<^verbatim>\<open>local_query\<close>
  returns the frame from inside the loop, so the comparison of addresses written after
  the loop never runs, and \<^verbatim>\<open>query\<close> returns the foreign frame as a success after one
  send attempt. \<^verbatim>\<open>set\<close> does the same.
\<close>

theorem query_returns_frame_of_other_address:
  "fst (query
       (QuerySet_init
         \<lparr>device = (\<lambda>k. Exchange None
             (feed [130, 69, 5, 0, 76, 130, 69, 49, 48, 48, 130, 90])), written = [],
          line = feed [], reads = 0\<rparr>)
       ((TxPacket_init 1)\<lparr>TxPacket.payload := [69]\<rparr>) 500)
     = Inr \<lparr>echo_packet = Some \<lparr>EchoPacket.address = 130, EchoPacket.command = 69,
                                 return_code = COMMAND_FINISHED\<rparr>,
            data_packet = Some \<lparr>DataPacket.address = 130, DataPacket.command = 69,
                                 DataPacket.parameter = 0,
                                 DataPacket.payload = [49, 48, 48]\<rparr>\<rparr>
   \<and> send_attempts (snd (query
       (QuerySet_init
         \<lparr>device = (\<lambda>k. Exchange None
             (feed [130, 69, 5, 0, 76, 130, 69, 49, 48, 48, 130, 90])), written = [],
          line = feed [], reads = 0\<rparr>)
       ((TxPacket_init 1)\<lparr>TxPacket.payload := [69]\<rparr>) 500)) = 1
   \<and> fst (set_op
       (QuerySet_init
         \<lparr>device = (\<lambda>k. Exchange None
             (feed [130, 69, 5, 0, 76, 130, 69, 49, 48, 48, 130, 90])), written = [],
          line = feed [], reads = 0\<rparr>)
       ((TxPacket_init 1)\<lparr>TxPacket.payload := [69]\<rparr>) 500)
     = Inr \<lparr>echo_packet = Some \<lparr>EchoPacket.address = 130, EchoPacket.command = 69,
                                 return_code = COMMAND_FINISHED\<rparr>,
            data_packet = Some \<lparr>DataPacket.address = 130, DataPacket.command = 69,
                                 DataPacket.parameter = 0,
                                 DataPacket.payload = [49, 48, 48]\<rparr>\<rparr>
   \<and> TxPacket.address ((TxPacket_init 1)\<lparr>TxPacket.payload := [69]\<rparr>) = 1
   \<and> TxPacket.address ((TxPacket_init 1)\<lparr>TxPacket.payload := [69]\<rparr>) OR 0x80 = 129"
  using first_frame_returned [OF request_E_encodable _ _ frame_other_address,
      of "QuerySet_init
         \<lparr>device = (\<lambda>k. Exchange None
             (feed [130, 69, 5, 0, 76, 130, 69, 49, 48, 48, 130, 90])), written = [],
          line = feed [], reads = 0\<rparr>" 500]
  by (simp add: TxPacket_init_def)

text \<open>
  C2. The claim: a valid first frame whose status is a server-side error makes
  \<^verbatim>\<open>query\<close> fail at once with a server-error classification. The code: nothing in the
  core raises \<^verbatim>\<open>ServerException\<close>; \<^verbatim>\<open>_decode_echo\<close> only converts the status byte.
  The first attempt receives a valid frame with status 12, \<^verbatim>\<open>INVALID_COMMAND\<close>, and
  \<^verbatim>\<open>query\<close> returns it as a success after one send attempt.
\<close>

theorem query_returns_server_error_frame:
  "fst (query
       (QuerySet_init
         \<lparr>device = (\<lambda>k. Exchange None (feed [129, 88, 12, 0, 101, 129, 88, 129, 90])), written = [],
          line = feed [], reads = 0\<rparr>)
       ((TxPacket_init 1)\<lparr>TxPacket.payload := [88]\<rparr>) 500)
     = Inr \<lparr>echo_packet = Some \<lparr>EchoPacket.address = 129, EchoPacket.command = 88,
                                 return_code = INVALID_COMMAND\<rparr>,
            data_packet = Some \<lparr>DataPacket.address = 129, DataPacket.command = 88,
                                 DataPacket.parameter = 0, DataPacket.payload = []\<rparr>\<rparr>
   \<and> send_attempts (snd (query
       (QuerySet_init
         \<lparr>device = (\<lambda>k. Exchange None (feed [129, 88, 12, 0, 101, 129, 88, 129, 90])), written = [],
          line = feed [], reads = 0\<rparr>)
       ((TxPacket_init 1)\<lparr>TxPacket.payload := [88]\<rparr>) 500)) = 1"
  using first_frame_returned(1,2) [OF request_X_encodable _ _ frame_invalid_command,
      of "QuerySet_init
         \<lparr>device = (\<lambda>k. Exchange None (feed [129, 88, 12, 0, 101, 129, 88, 129, 90])), written = [],
          line = feed [], reads = 0\<rparr>" 500]
  by simp

text \<open>
  C3. The claim: a decode failure consumes one attempt and the layer retries while
  attempts remain. The code: the exception of a failed decode is no
  \<^verbatim>\<open>ResponseTimeout\<close>, so the handler \<^verbatim>\<open>except Exception\<close> raises
  \<^verbatim>\<open>GeneralException\<close> at once. On a channel whose first reply has a wrong echo
  checksum (or an unknown status code, or is cut short) and whose every later reply is
  a valid frame, \<^verbatim>\<open>query\<close> fails after one send attempt, and so does \<^verbatim>\<open>set\<close>.
\<close>

theorem query_fails_on_first_decode_failure:
  "fst (query
       (QuerySet_init
         \<lparr>device = (\<lambda>k. if k = 0
             then Exchange None (feed [129, 69, 5, 0, 0, 129, 69, 49, 48, 48, 129, 88])
             else Exchange None (feed [129, 69, 5, 0, 75, 129, 69, 49, 48, 48, 129, 88])), written = [],
          line = feed [], reads = 0\<rparr>)
       ((TxPacket_init 1)\<lparr>TxPacket.payload := [69]\<rparr>) 500)
     = Inl (GeneralException (QueryFailed (ChecksumException Echo 75 0)))
   \<and> send_attempts (snd (query
       (QuerySet_init
         \<lparr>device = (\<lambda>k. if k = 0
             then Exchange None (feed [129, 69, 5, 0, 0, 129, 69, 49, 48, 48, 129, 88])
             else Exchange None (feed [129, 69, 5, 0, 75, 129, 69, 49, 48, 48, 129, 88])), written = [],
          line = feed [], reads = 0\<rparr>)
       ((TxPacket_init 1)\<lparr>TxPacket.payload := [69]\<rparr>) 500)) = 1
   \<and> fst (set_op
       (QuerySet_init
         \<lparr>device = (\<lambda>k. if k = 0
             then Exchange None (feed [129, 69, 5, 0, 0, 129, 69, 49, 48, 48, 129, 88])
             else Exchange None (feed [129, 69, 5, 0, 75, 129, 69, 49, 48, 48, 129, 88])), written = [],
          line = feed [], reads = 0\<rparr>)
       ((TxPacket_init 1)\<lparr>TxPacket.payload := [69]\<rparr>) 500)
     = Inl (GeneralException (SetFailed (ChecksumException Echo 75 0)))
   \<and> fst (query
       (QuerySet_init
         \<lparr>device = (\<lambda>k. if k = 0
             then Exchange None (feed [129, 69, 99, 0, 41])
             else Exchange None (feed [129, 69, 5, 0, 75, 129, 69, 49, 48, 48, 129, 88])), written = [],
          line = feed [], reads = 0\<rparr>)
       ((TxPacket_init 1)\<lparr>TxPacket.payload := [69]\<rparr>) 500)
     = Inl (GeneralException (QueryFailed (ValueError 99)))
   \<and> fst (query
       (QuerySet_init
         \<lparr>device = (\<lambda>k. if k = 0
             then Exchange None (feed [129, 69, 5])
             else Exchange None (feed [129, 69, 5, 0, 75, 129, 69, 49, 48, 48, 129, 88])), written = [],
          line = feed [], reads = 0\<rparr>)
       ((TxPacket_init 1)\<lparr>TxPacket.payload := [69]\<rparr>) 500)
     = Inl (GeneralException (QueryFailed IndexError))"
  using first_decode_failure_raised [OF request_E_encodable _ _ frame_bad_checksum,
      of "QuerySet_init
         \<lparr>device = (\<lambda>k. if k = 0
             then Exchange None (feed [129, 69, 5, 0, 0, 129, 69, 49, 48, 48, 129, 88])
             else Exchange None (feed [129, 69, 5, 0, 75, 129, 69, 49, 48, 48, 129, 88])), written = [],
          line = feed [], reads = 0\<rparr>" 500]
    first_decode_failure_raised(1) [OF request_E_encodable _ _ frame_unknown_status,
      of "QuerySet_init
         \<lparr>device = (\<lambda>k. if k = 0
             then Exchange None (feed [129, 69, 99, 0, 41])
             else Exchange None (feed [129, 69, 5, 0, 75, 129, 69, 49, 48, 48, 129, 88])), written = [],
          line = feed [], reads = 0\<rparr>" 500]
    first_decode_failure_raised(1) [OF request_E_encodable _ _ frame_truncated,
      of "QuerySet_init
         \<lparr>device = (\<lambda>k. if k = 0
             then Exchange None (feed [129, 69, 5])
             else Exchange None (feed [129, 69, 5, 0, 75, 129, 69, 49, 48, 48, 129, 88])), written = [],
          line = feed [], reads = 0\<rparr>" 500]
  by simp

end
